theory Spec2Isabelle
  imports Complex_Main "HOL-Library.Sublist"
begin

section \<open>Python values used by the pipeline\<close>

text \<open>
  A Python \<open>str\<close> is modelled as a HOL \<open>string\<close>, one \<open>char\<close> per code point, so
  \<open>length\<close>, \<open>take\<close> and \<open>drop\<close> count what Python's \<open>len\<close> and slices count. Code
  points above 255 are outside the model. An exception is a value carrying the name of
  its class and the text that \<open>str(e)\<close> returns; a computation that may raise has a
  result of type \<open>exc + 'a\<close>.
\<close>

datatype exc = Exc (cls: string) (msg: string)

definition bind_exc :: "exc + 'a \<Rightarrow> ('a \<Rightarrow> exc + 'b) \<Rightarrow> exc + 'b" where
  "bind_exc m f = (case m of Inl e \<Rightarrow> Inl e | Inr x \<Rightarrow> f x)"

text \<open>
  The Python values that flow through metadata dictionaries and parsed JSON (floats are
  left out). A dictionary with string keys is the list of its items, read with
  \<open>map_of\<close>.
\<close>

datatype pyval =
    PyNone
  | PyBool bool
  | PyInt int
  | PyStr string
  | PyList "pyval list"
  | PyDict "(string \<times> pyval) list"

subsection \<open>String operations\<close>

text \<open>\<open>sub in text\<close>.\<close>

fun py_in :: "'a list \<Rightarrow> 'a list \<Rightarrow> bool" where
  "py_in sub [] = (sub = [])"
| "py_in sub (c # cs) = (prefix sub (c # cs) \<or> py_in sub cs)"

text \<open>
  \<open>text.split(sep)\<close>: the occurrences of \<open>sep\<close> are found from left to right and do
  not overlap; an empty separator raises \<open>ValueError\<close>. \<open>split_from sep acc text\<close> is
  the scan with \<open>acc\<close> the piece collected since the last separator.
\<close>

function split_from :: "'a list \<Rightarrow> 'a list \<Rightarrow> 'a list \<Rightarrow> 'a list list" where
  "split_from sep acc [] = [acc]"
| "split_from sep acc (c # cs) =
     (if sep \<noteq> [] \<and> prefix sep (c # cs)
      then acc # split_from sep [] (drop (length sep) (c # cs))
      else split_from sep (acc @ [c]) cs)"
  by pat_completeness auto
termination
  by (relation "measure (\<lambda>(sep, acc, text). length text)") (auto simp: neq_Nil_conv)

definition py_split :: "string \<Rightarrow> string \<Rightarrow> exc + string list" where
  "py_split text sep =
     (if sep = [] then Inl (Exc ''ValueError'' ''empty separator'')
      else Inr (split_from sep [] text))"

text \<open>\<open>xs[i]\<close> for a non-negative index.\<close>

definition py_index :: "'a list \<Rightarrow> nat \<Rightarrow> exc + 'a" where
  "py_index xs i =
     (if i < length xs then Inr (xs ! i)
      else Inl (Exc ''IndexError'' ''list index out of range''))"

text \<open>
  \<open>str.isspace\<close> on one character, for the code points below 256: the controls
  \<open>0x09\<close> to \<open>0x0D\<close> and \<open>0x1C\<close> to \<open>0x1F\<close>, the space, \<open>0x85\<close> and \<open>0xA0\<close>.
\<close>

definition is_space :: "char \<Rightarrow> bool" where
  "is_space c =
     (let n = (of_char c :: nat)
      in (9 \<le> n \<and> n \<le> 13) \<or> (28 \<le> n \<and> n \<le> 31) \<or> n = 32 \<or> n = 133 \<or> n = 160)"

text \<open>\<open>text.strip()\<close>.\<close>

definition py_strip :: "string \<Rightarrow> string" where
  "py_strip text = rev (dropWhile is_space (rev (dropWhile is_space text)))"

text \<open>\<open>sep.join(xs)\<close>.\<close>

fun py_join :: "'a list \<Rightarrow> 'a list list \<Rightarrow> 'a list" where
  "py_join sep [] = []"
| "py_join sep [x] = x"
| "py_join sep (x # y # ys) = x @ sep @ py_join sep (y # ys)"

text \<open>
  \<open>text.replace(old, new)\<close>: every non-overlapping occurrence of \<open>old\<close>, from the
  left; with an empty \<open>old\<close>, \<open>new\<close> is put before every character and at the end.
\<close>

definition py_replace :: "'a list \<Rightarrow> 'a list \<Rightarrow> 'a list \<Rightarrow> 'a list" where
  "py_replace old new text =
     (if old = [] then new @ concat (map (\<lambda>c. c # new) text)
      else py_join new (split_from old [] text))"

definition newline :: string where
  "newline = [CHR 0x0A]"




definition py_endswith :: "string \<Rightarrow> string \<Rightarrow> bool" where
  "py_endswith text p = suffix p text"

subsection \<open>Dictionaries and dynamic values\<close>

text \<open>\<open>d[k]\<close> and \<open>d.get(k, default)\<close> on a dictionary with string keys.\<close>

definition py_getitem :: "(string \<rightharpoonup> 'v) \<Rightarrow> string \<Rightarrow> exc + 'v" where
  "py_getitem d k = (case d k of None \<Rightarrow> Inl (Exc ''KeyError'' k) | Some v \<Rightarrow> Inr v)"

definition dict_get :: "(string \<rightharpoonup> 'v) \<Rightarrow> string \<Rightarrow> 'v \<Rightarrow> 'v" where
  "dict_get d k dflt = (case d k of None \<Rightarrow> dflt | Some v \<Rightarrow> v)"

text \<open>
  \<open>x.get(k, default)\<close> on a value of unknown type: only a dictionary has the method,
  anything else raises \<open>AttributeError\<close>.
\<close>

definition py_get :: "pyval \<Rightarrow> string \<Rightarrow> pyval \<Rightarrow> exc + pyval" where
  "py_get x k dflt =
     (case x of
        PyDict items \<Rightarrow> Inr (dict_get (map_of items) k dflt)
      | _ \<Rightarrow> Inl (Exc ''AttributeError'' ''object has no attribute 'get' ''))"

text \<open>\<open>len(x)\<close>: defined on strings, lists and dictionaries.\<close>

definition py_len :: "pyval \<Rightarrow> exc + nat" where
  "py_len x =
     (case x of
        PyStr s \<Rightarrow> Inr (length s)
      | PyList xs \<Rightarrow> Inr (length xs)
      | PyDict items \<Rightarrow> Inr (card (fst ` set items))
      | _ \<Rightarrow> Inl (Exc ''TypeError'' ''object has no len()''))"

text \<open>
  An f-string field \<open>{x}\<close>: a string is inserted as it is, any other value through
  Python's \<open>str\<close>, which is the parameter \<open>str_of\<close>.
\<close>

definition py_format :: "(pyval \<Rightarrow> string) \<Rightarrow> pyval \<Rightarrow> string" where
  "py_format str_of x = (case x of PyStr s \<Rightarrow> s | _ \<Rightarrow> str_of x)"

text \<open>
  \<open>list(set(xs))\<close>. Lists and dictionaries are unhashable and raise \<open>TypeError\<close>.
  Equal elements are merged, where Python's \<open>==\<close> also identifies \<open>True\<close> with \<open>1\<close>
  and \<open>False\<close> with \<open>0\<close>. The order in which a set is listed depends on the hash
  values; the model lists first occurrences in the order of \<open>xs\<close>, and no theorem below
  depends on the order.
\<close>

fun hashable :: "pyval \<Rightarrow> bool" where
  "hashable (PyList _) = False"
| "hashable (PyDict _) = False"
| "hashable _ = True"

fun py_eq :: "pyval \<Rightarrow> pyval \<Rightarrow> bool" where
  "py_eq PyNone PyNone = True"
| "py_eq (PyStr a) (PyStr b) = (a = b)"
| "py_eq (PyInt a) (PyInt b) = (a = b)"
| "py_eq (PyBool a) (PyBool b) = (a = b)"
| "py_eq (PyInt a) (PyBool b) = (a = (if b then 1 else 0))"
| "py_eq (PyBool a) (PyInt b) = (b = (if a then 1 else 0))"
| "py_eq _ _ = False"

function dedup :: "pyval list \<Rightarrow> pyval list" where
  "dedup [] = []"
| "dedup (x # xs) = x # dedup (filter (\<lambda>y. \<not> py_eq x y) xs)"
  by pat_completeness auto
termination
  by (relation "measure length") (auto simp: less_Suc_eq_le)

definition py_list_set :: "pyval list \<Rightarrow> exc + pyval list" where
  "py_list_set xs =
     (if list_all hashable xs then Inr (dedup xs)
      else Inl (Exc ''TypeError'' ''unhashable type''))"

section \<open>The audit engine (backend/auditor.py)\<close>

subsection \<open>Parsing the structured response\<close>

definition THINKING :: string where "THINKING = ''**THINKING**:''"
definition STATUS :: string where "STATUS = ''**STATUS**:''"
definition RATIONALE :: string where "RATIONALE = ''**RATIONALE**:''"
definition EVIDENCE_CITATION :: string where "EVIDENCE_CITATION = ''**EVIDENCE CITATION**:''"

type_synonym sections = "string \<rightharpoonup> string"

definition default_sections :: sections where
  "default_sections =
     [''thinking'' \<mapsto> ''No thinking provided.'', ''status'' \<mapsto> ''Unknown'',
      ''rationale'' \<mapsto> '''', ''citation'' \<mapsto> '''']"

text \<open>\<open>text.split(a)[1].split(b)[0].strip()\<close>, each step of which may raise.\<close>

definition split_between :: "string \<Rightarrow> string \<Rightarrow> string \<Rightarrow> exc + string" where
  "split_between text a b =
     bind_exc (py_split text a) (\<lambda>ps.
     bind_exc (py_index ps 1) (\<lambda>rest.
     bind_exc (py_split rest b) (\<lambda>qs.
     bind_exc (py_index qs 0) (\<lambda>piece. Inr (py_strip piece)))))"

text \<open>\<open>text.split(a)[1].strip()\<close>.\<close>

definition split_after :: "string \<Rightarrow> string \<Rightarrow> exc + string" where
  "split_after text a =
     bind_exc (py_split text a) (\<lambda>ps.
     bind_exc (py_index ps 1) (\<lambda>rest. Inr (py_strip rest)))"

text \<open>
  The four guarded assignments of the \<open>try\<close> block, one function each. An assignment
  that raises leaves the dictionary as the assignments before it made it.
\<close>

definition set_thinking :: "string \<Rightarrow> sections \<Rightarrow> exc + sections" where
  "set_thinking text s =
     (if py_in THINKING text
      then bind_exc (split_between text THINKING STATUS) (\<lambda>v. Inr (s(''thinking'' \<mapsto> v)))
      else Inr s)"

definition set_status :: "string \<Rightarrow> sections \<Rightarrow> exc + sections" where
  "set_status text s =
     (if py_in STATUS text
      then bind_exc (split_between text STATUS RATIONALE) (\<lambda>v. Inr (s(''status'' \<mapsto> v)))
      else Inr s)"

definition set_rationale :: "string \<Rightarrow> sections \<Rightarrow> exc + sections" where
  "set_rationale text s =
     (if py_in RATIONALE text
      then bind_exc (split_between text RATIONALE EVIDENCE_CITATION)
             (\<lambda>v. Inr (s(''rationale'' \<mapsto> v)))
      else Inr s)"

definition set_citation :: "string \<Rightarrow> sections \<Rightarrow> exc + sections" where
  "set_citation text s =
     (if py_in EVIDENCE_CITATION text
      then bind_exc (split_after text EVIDENCE_CITATION) (\<lambda>v. Inr (s(''citation'' \<mapsto> v)))
      else Inr s)"

text \<open>
  \<open>_parse_structured_response\<close>: the \<open>except Exception\<close> clause logs a warning and falls
  through to \<open>return sections\<close>, so a step that raises ends the block with the
  dictionary as it stood.
\<close>

definition parse_structured_response :: "string \<Rightarrow> exc + sections" where
  "parse_structured_response text =
     (let s0 = default_sections in
      case set_thinking text s0 of Inl e \<Rightarrow> Inr s0 | Inr s1 \<Rightarrow>
      (case set_status text s1 of Inl e \<Rightarrow> Inr s1 | Inr s2 \<Rightarrow>
      (case set_rationale text s2 of Inl e \<Rightarrow> Inr s2 | Inr s3 \<Rightarrow>
      (case set_citation text s3 of Inl e \<Rightarrow> Inr s3 | Inr s4 \<Rightarrow> Inr s4))))"

text \<open>The number of positions of \<open>text\<close> at which \<open>sub\<close> begins.\<close>

fun occurrences :: "'a list \<Rightarrow> 'a list \<Rightarrow> nat" where
  "occurrences sub [] = (if sub = [] then 1 else 0)"
| "occurrences sub (c # cs) = (if prefix sub (c # cs) then 1 else 0) + occurrences sub cs"

subsection \<open>Formatting the context and running one audit\<close>

text \<open>A retrieved chunk: a langchain \<open>Document\<close>.\<close>

record document =
  page_content :: string
  metadata :: "string \<rightharpoonup> pyval"

text \<open>\<open>format_docs\<close>.\<close>

definition format_doc :: "(pyval \<Rightarrow> string) \<Rightarrow> document \<Rightarrow> string" where
  "format_doc str_of doc =
     (let source = dict_get (metadata doc) ''source_file'' (PyStr ''Unknown Source'');
          content = py_replace newline '' '' (page_content doc)
      in ''[Source: '' @ py_format str_of source @ '']'' @ newline @ content @ newline)"

definition format_docs :: "(pyval \<Rightarrow> string) \<Rightarrow> document list \<Rightarrow> string" where
  "format_docs str_of docs =
     py_join (newline @ ''---'' @ newline) (map (format_doc str_of) docs)"

record AuditResult =
  question :: string
  thinking :: string
  answer :: string
  status :: string
  sources :: "string list"

text \<open>
  Constructing an \<open>AuditResult\<close> validates the fields (pydantic 2): every element of
  \<open>sources\<close>, declared \<open>List[str]\<close>, must be a string, otherwise \<open>ValidationError\<close> is
  raised. The other four arguments are strings at every call site.
\<close>

fun as_str :: "pyval \<Rightarrow> string option" where
  "as_str (PyStr s) = Some s"
| "as_str _ = None"

definition new_AuditResult ::
  "string \<Rightarrow> string \<Rightarrow> string \<Rightarrow> string \<Rightarrow> pyval list \<Rightarrow> exc + AuditResult" where
  "new_AuditResult q th st an srcs =
     (if list_all (\<lambda>v. as_str v \<noteq> None) srcs
      then Inr \<lparr>question = q, thinking = th, answer = an, status = st,
                sources = map (\<lambda>v. the (as_str v)) srcs\<rparr>
      else Inl (Exc ''ValidationError''
                 ''validation error for AuditResult: sources: Input should be a valid string''))"

text \<open>
  The \<open>try\<close> block of \<open>run_audit\<close>. The retriever and the chain
  \<open>prompt | llm | StrOutputParser()\<close> are parameters; each may raise.
\<close>

definition run_audit_try ::
  "(pyval \<Rightarrow> string) \<Rightarrow> string \<Rightarrow> (string \<Rightarrow> exc + document list)
     \<Rightarrow> (string \<Rightarrow> string \<Rightarrow> exc + string) \<Rightarrow> exc + AuditResult" where
  "run_audit_try str_of q retriever chain =
     bind_exc (retriever q) (\<lambda>docs.
     let context_text = format_docs str_of docs in
     bind_exc (chain context_text q) (\<lambda>response_text.
     bind_exc (parse_structured_response response_text) (\<lambda>parsed.
     bind_exc (py_list_set (map (\<lambda>d. dict_get (metadata d) ''source_file'' PyNone) docs))
       (\<lambda>unique_sources.
     bind_exc (py_getitem parsed ''thinking'') (\<lambda>th.
     bind_exc (py_getitem parsed ''status'') (\<lambda>st.
     bind_exc (py_getitem parsed ''rationale'') (\<lambda>ra.
     bind_exc (py_getitem parsed ''citation'') (\<lambda>ci.
     new_AuditResult q th st (ra @ newline @ newline @ ci) unique_sources))))))))"

text \<open>\<open>run_audit\<close>: the \<open>except Exception\<close> clause builds the error result.\<close>

definition run_audit ::
  "(pyval \<Rightarrow> string) \<Rightarrow> string \<Rightarrow> (string \<Rightarrow> exc + document list)
     \<Rightarrow> (string \<Rightarrow> string \<Rightarrow> exc + string) \<Rightarrow> exc + AuditResult" where
  "run_audit str_of q retriever chain =
     (case run_audit_try str_of q retriever chain of
        Inr result \<Rightarrow> Inr result
      | Inl e \<Rightarrow>
          new_AuditResult q ''Error during reasoning.'' ''Error''
            (''Error running audit: '' @ msg e) [])"

section \<open>Ingestion (backend/ingestion.py)\<close>

text \<open>
  \<open>Settings\<close> (backend/config.py); the defaults are \<open>CHUNK_SIZE = 1000\<close>,
  \<open>CHUNK_OVERLAP = 200\<close> and \<open>RETRIEVAL_K = 5\<close>, and the environment can override
  them.
\<close>

record settings =
  CHUNK_SIZE :: int
  CHUNK_OVERLAP :: int
  RETRIEVAL_K :: int

definition default_settings :: settings where
  "default_settings = \<lparr>CHUNK_SIZE = 1000, CHUNK_OVERLAP = 200, RETRIEVAL_K = 5\<rparr>"

text \<open>
  The collaborators of \<open>PolicyIngestor\<close>, as parameters: the PDF loader, the registrar
  template's \<open>format\<close>, the tagger LLM (the \<open>content\<close> of its reply), \<open>json.loads\<close>,
  the text splitter built from the chunk size and overlap, the vector store's
  \<open>add_documents\<close> (the store after the call, and the exception if it raised) and
  Python's \<open>str\<close>. Each of the first five may raise.
\<close>

record 'st ingest_env =
  load_pdf :: "string \<Rightarrow> exc + document list"
  registrar_format :: "string \<Rightarrow> exc + string"
  tagger_llm :: "string \<Rightarrow> exc + string"
  json_loads :: "string \<Rightarrow> exc + pyval"
  split_documents :: "int \<Rightarrow> int \<Rightarrow> document list \<Rightarrow> exc + document list"
  add_documents :: "'st \<Rightarrow> document list \<Rightarrow> 'st \<times> exc option"
  py_str :: "pyval \<Rightarrow> string"

definition fallback_metadata :: pyval where
  "fallback_metadata =
     PyDict [(''formal_title'', PyStr ''Unknown Policy''), (''category'', PyStr ''General'')]"

text \<open>The slice \<open>first_page_text[:3000]\<close> that is put into the prompt.\<close>

definition tagger_input :: "string \<Rightarrow> string" where
  "tagger_input first_page_text = take 3000 first_page_text"

text \<open>The \<open>try\<close> block of \<open>_get_actual_metadata\<close>, and the function with its handler.\<close>

definition clean_json :: "string \<Rightarrow> string" where
  "clean_json content = py_replace ''```'' [] (py_replace ''```json'' [] (py_strip content))"

definition get_actual_metadata_try :: "'st ingest_env \<Rightarrow> string \<Rightarrow> exc + pyval" where
  "get_actual_metadata_try env first_page_text =
     bind_exc (registrar_format env (tagger_input first_page_text)) (\<lambda>prompt.
     bind_exc (tagger_llm env prompt) (\<lambda>content.
     json_loads env (clean_json content)))"

definition get_actual_metadata :: "'st ingest_env \<Rightarrow> string \<Rightarrow> exc + pyval" where
  "get_actual_metadata env first_page_text =
     (case get_actual_metadata_try env first_page_text of
        Inr doc_info \<Rightarrow> Inr doc_info
      | Inl e \<Rightarrow> Inr fallback_metadata)"










text \<open>
  An environment for examples. The store is the number of documents it holds. A path
  that ends in \<open>bad.pdf\<close> cannot be loaded; every other PDF has two pages, which the
  splitter returns as they are.
\<close>

definition sample_env :: "nat ingest_env" where
  "sample_env =
     \<lparr>load_pdf = (\<lambda>p. if py_endswith p ''bad.pdf''
                       then Inl (Exc ''PdfReadError'' ''EOF marker not found'')
                       else Inr [\<lparr>page_content = ''Remote Work Policy'', metadata = Map.empty\<rparr>,
                                 \<lparr>page_content = ''Up to 3 days'', metadata = Map.empty\<rparr>]),
      registrar_format = (\<lambda>t. Inr (''Identify this doc. Text: '' @ t)),
      tagger_llm = (\<lambda>p. Inr ''{}''),
      json_loads = (\<lambda>s. Inr (PyDict [(''formal_title'', PyStr ''Remote Work Policy''),
                                       (''category'', PyStr ''HR'')])),
      split_documents = (\<lambda>chunk_size overlap pages. Inr pages),
      add_documents = (\<lambda>store chunks. (store + length chunks, None)),
      py_str = (\<lambda>v. ''?'')\<rparr>"

subsection \<open>The hybrid retriever\<close>

text \<open>What \<open>vectorstore.get()\<close> returns, and the retriever objects that are built.\<close>

record get_result =
  documents :: "string list"
  metadatas :: "(string \<rightharpoonup> pyval) list"

datatype retriever =
    VectorStoreRetriever (search_k: int)
  | BM25Retriever (bm25_docs: "document list") (bm25_k: int)
  | EnsembleRetriever (retrievers: "retriever list") (weights: "rat list")

text \<open>\<open>get_retriever\<close>; the float literals \<open>0.3\<close> and \<open>0.7\<close> are the rationals they denote.\<close>

definition get_retriever :: "settings \<Rightarrow> exc + get_result \<Rightarrow> exc + retriever" where
  "get_retriever cfg vectorstore_get =
     (let vector_retriever = VectorStoreRetriever (RETRIEVAL_K cfg) in
      bind_exc vectorstore_get (\<lambda>all_docs.
        if documents all_docs = [] then Inr vector_retriever
        else
          let docs = map (\<lambda>(txt, md). \<lparr>page_content = txt, metadata = md\<rparr>)
                       (zip (documents all_docs) (metadatas all_docs));
              bm25_retriever = BM25Retriever docs (RETRIEVAL_K cfg)
          in Inr (EnsembleRetriever [bm25_retriever, vector_retriever] [3 / 10, 7 / 10])))"

section \<open>Question extraction (backend/extractor.py)\<close>

text \<open>
  \<open>extract_from_file\<close>: the loader and the chain \<open>prompt | llm | parser\<close> (which gives
  the parsed JSON) are parameters that may raise.
\<close>

definition extract_from_file_try ::
  "(string \<Rightarrow> exc + document list) \<Rightarrow> (string \<Rightarrow> exc + pyval) \<Rightarrow> string \<Rightarrow> exc + pyval" where
  "extract_from_file_try loader chain file_path =
     bind_exc (loader file_path) (\<lambda>pages.
     let full_text = py_join newline (map page_content pages) in
     bind_exc (chain full_text) (\<lambda>result.
     bind_exc (py_get result ''questions'' (PyList [])) (\<lambda>questions.
     bind_exc (py_len questions) (\<lambda>n. Inr questions))))"

definition extract_from_file ::
  "(string \<Rightarrow> exc + document list) \<Rightarrow> (string \<Rightarrow> exc + pyval) \<Rightarrow> string \<Rightarrow> exc + pyval" where
  "extract_from_file loader chain file_path =
     (case extract_from_file_try loader chain file_path of
        Inr questions \<Rightarrow> Inr questions
      | Inl e \<Rightarrow> Inr (PyList []))"

section \<open>The bulk audit endpoint (backend/main.py)\<close>

text \<open>
  What the generator yields: \<open>JsonLine d\<close> stands for \<open>json.dumps(d) + "\n"\<close>, with
  \<open>d\<close> the items of the dictionary in order, and \<open>Text s\<close> for the string \<open>s\<close>.
\<close>

datatype emitted = JsonLine "(string \<times> pyval) list" | Text string

text \<open>
  \<open>audit_generator\<close>, run to its end, on the extracted questions; \<open>audit q\<close> is
  \<open>auditor_engine.run_audit(q, retriever)\<close>.
\<close>

definition meta_line :: "string list \<Rightarrow> emitted" where
  "meta_line questions =
     JsonLine [(''type'', PyStr ''meta''), (''total'', PyInt (int (length questions)))]"

definition result_line :: "(string \<Rightarrow> exc + AuditResult) \<Rightarrow> string \<Rightarrow> emitted" where
  "result_line audit q_text =
     (case audit q_text of
        Inr res \<Rightarrow>
          JsonLine [(''type'', PyStr ''result''), (''question'', PyStr (question res)),
                    (''thinking'', PyStr (thinking res)), (''answer'', PyStr (answer res)),
                    (''status'', PyStr (status res)),
                    (''sources'', PyList (map PyStr (sources res)))]
      | Inl e \<Rightarrow>
          JsonLine [(''type'', PyStr ''result''), (''question'', PyStr q_text),
                    (''thinking'', PyStr ''Error during processing.''),
                    (''answer'', PyStr (''Internal Server Error: '' @ msg e)),
                    (''status'', PyStr ''Error''), (''sources'', PyList [])])"

text \<open>One turn of the loop: the single space, then the record of the question.\<close>

definition audit_step :: "(string \<Rightarrow> exc + AuditResult) \<Rightarrow> string \<Rightarrow> emitted list" where
  "audit_step audit q_text = [Text '' '', result_line audit q_text]"

definition audit_generator :: "(string \<Rightarrow> exc + AuditResult) \<Rightarrow> string list \<Rightarrow> emitted list" where
  "audit_generator audit questions =
     meta_line questions # concat (map (audit_step audit) questions)"

text \<open>
  \<open>run_bulk_audit_stream\<close>, from the questions that \<open>extract_from_file\<close> returned. A
  raised \<open>HTTPException\<close> is the response FastAPI sends for it.
\<close>

datatype response = HTTPException int string | StreamingResponse "emitted list"

definition run_bulk_audit_stream ::
  "bool \<Rightarrow> (string \<Rightarrow> exc + AuditResult) \<Rightarrow> string list \<Rightarrow> response" where
  "run_bulk_audit_stream have_retriever audit questions =
     (if \<not> have_retriever
      then HTTPException 400 ''No policies indexed. Please upload policies first.''
      else if questions = [] then HTTPException 400 ''Could not extract any questions.''
      else StreamingResponse (audit_generator audit questions))"




section \<open>The chunker of the specification\<close>

text \<open>
  Modelled from the spec: the splitter that \<open>ingest_pdf\<close> calls is langchain's
  \<open>RecursiveCharacterTextSplitter\<close>, whose code is not part of the sources. The spec
  describes \<open>chunk(pages, chunk_size, overlap)\<close> as splitting the concatenated page
  text into overlapping fixed-length windows: \<open>chunk_size\<close> characters each,
  \<open>overlap\<close> characters shared between consecutive windows.
\<close>

function chunk_text :: "nat \<Rightarrow> nat \<Rightarrow> 'a list \<Rightarrow> 'a list list" where
  "chunk_text chunk_size overlap text =
     (if text = [] then []
      else if length text \<le> chunk_size \<or> chunk_size \<le> overlap then [text]
      else take chunk_size text # chunk_text chunk_size overlap (drop (chunk_size - overlap) text))"
  by pat_completeness auto
termination
  by (relation "measure (\<lambda>(chunk_size, overlap, text). length text)") auto

definition chunk :: "'a list list \<Rightarrow> nat \<Rightarrow> nat \<Rightarrow> 'a list list" where
  "chunk pages chunk_size overlap = chunk_text chunk_size overlap (concat pages)"

text \<open>
  Re-joining: the first chunk, then every later chunk without its first \<open>overlap\<close>
  characters.
\<close>

definition rejoin :: "nat \<Rightarrow> 'a list list \<Rightarrow> 'a list" where
  "rejoin overlap chunks =
     (case chunks of [] \<Rightarrow> [] | c # cs \<Rightarrow> c @ concat (map (drop overlap) cs))"

section \<open>Properties of the parser\<close>

lemma py_in_sublist: "py_in m t \<longleftrightarrow> sublist m t"
  by (induction t) (auto simp: sublist_Cons_right)

lemma split_from_not_Nil: "split_from m acc t \<noteq> []"
  by (induction m acc t rule: split_from.induct) auto

lemma split_from_acc:
  "split_from m acc t = (acc @ hd (split_from m [] t)) # tl (split_from m [] t)"
proof (induction t arbitrary: acc rule: length_induct)
  case (1 t)
  show ?case
  proof (cases t)
    case Nil
    then show ?thesis by simp
  next
    case (Cons c cs)
    show ?thesis
    proof (cases "m \<noteq> [] \<and> prefix m (c # cs)")
      case True
      then show ?thesis using Cons by simp
    next
      case False
      have len: "length cs < length t" using Cons by simp
      have IH: "\<And>a. split_from m a cs = (a @ hd (split_from m [] cs)) # tl (split_from m [] cs)"
        using 1 len by blast
      have a: "split_from m (acc @ [c]) cs = ((acc @ [c]) @ hd (split_from m [] cs)) # tl (split_from m [] cs)"
        by (rule IH)
      have b: "split_from m [c] cs = ([c] @ hd (split_from m [] cs)) # tl (split_from m [] cs)"
        by (rule IH)
      have l: "split_from m acc (c # cs) = split_from m (acc @ [c]) cs"
        using False by auto
      have r: "split_from m [] (c # cs) = split_from m [c] cs"
        using False by auto
      have hb: "hd (split_from m [c] cs) = c # hd (split_from m [] cs)"
        and tb: "tl (split_from m [c] cs) = tl (split_from m [] cs)"
        using b by simp_all
      show ?thesis unfolding Cons l r hb tb using a by simp
    qed
  qed
qed

lemma split_from_no_occurrence:
  "\<not> sublist m t \<Longrightarrow> split_from m acc t = [acc @ t]"
proof (induction t arbitrary: acc)
  case Nil
  then show ?case by simp
next
  case (Cons c cs)
  then have "\<not> prefix m (c # cs)" and "\<not> sublist m cs"
    by (auto simp: sublist_Cons_right)
  then show ?case using Cons.IH[of "acc @ [c]"] by simp
qed

lemma split_from_first:
  assumes "m \<noteq> []" and "\<not> sublist m (u @ butlast m)"
  shows "split_from m acc (u @ m @ v) = (acc @ u) # split_from m [] v"
  using assms(2)
proof (induction u arbitrary: acc)
  case Nil
  obtain c cs where m: "m = c # cs" using assms(1) by (cases m) auto
  then show ?case by simp
next
  case (Cons c u)
  have np: "\<not> prefix m (c # u @ m @ v)"
  proof
    assume p: "prefix m (c # u @ m @ v)"
    have "c # u @ m @ v = (c # u @ butlast m) @ (last m # v)"
      using assms(1) by simp
    moreover have "length m \<le> length (c # u @ butlast m)" by simp
    ultimately have "prefix m (c # u @ butlast m)"
      using p by (metis prefix_length_prefix prefixI)
    then have "sublist m ((c # u) @ butlast m)" by (simp add: prefix_imp_sublist)
    with Cons.prems show False by simp
  qed
  have "\<not> sublist m (u @ butlast m)"
    using Cons.prems by (auto simp: sublist_Cons_right)
  from Cons.IH[OF this, of "acc @ [c]"] np show ?case by simp
qed

lemma split_from_length:
  "m \<noteq> [] \<Longrightarrow> sublist m t \<Longrightarrow> 2 \<le> length (split_from m acc t)"
proof (induction t arbitrary: acc)
  case Nil
  then show ?case by simp
next
  case (Cons c cs)
  show ?case
  proof (cases "prefix m (c # cs)")
    case True
    then show ?thesis using Cons.prems(1) split_from_not_Nil[of m "[]" "drop (length m) (c # cs)"]
      by (cases "split_from m [] (drop (length m) (c # cs))") auto
  next
    case False
    then have "sublist m cs" using Cons.prems by (auto simp: sublist_Cons_right)
    then show ?thesis using False Cons.IH[OF Cons.prems(1), of "acc @ [c]"] by simp
  qed
qed

lemma occurrences_zero_iff: "m \<noteq> [] \<Longrightarrow> occurrences m t = 0 \<longleftrightarrow> \<not> sublist m t"
  by (induction t) (auto simp: sublist_Cons_right)

lemma occurrences_suffix_mono: "occurrences m v \<le> occurrences m (u @ v)"
  by (induction u) auto

lemma occurrences_decompose:
  assumes "m \<noteq> []"
  shows "occurrences m (u @ butlast m) + 1 + occurrences m v \<le> occurrences m (u @ m @ v)"
proof (induction u)
  case Nil
  have "\<not> sublist m (butlast m)"
  proof
    assume "sublist m (butlast m)"
    then have "length m \<le> length (butlast m)" by (rule sublist_length_le)
    moreover have "length (butlast m) < length m"
      using assms by (cases m) auto
    ultimately show False by arith
  qed
  then have z: "occurrences m (butlast m) = 0"
    using assms by (simp add: occurrences_zero_iff)
  obtain c cs where m: "m = c # cs" using assms by (cases m) auto
  have "occurrences m (m @ v) = 1 + occurrences m (cs @ v)"
    by (simp add: m)
  moreover have "occurrences m v \<le> occurrences m (cs @ v)"
    by (rule occurrences_suffix_mono)
  ultimately show ?case using z by simp
next
  case (Cons c u)
  have "prefix m (c # u @ m @ v)" if "prefix m (c # u @ butlast m)"
  proof -
    have "c # u @ m @ v = (c # u @ butlast m) @ (last m # v)"
      using assms by simp
    then show ?thesis using that by (simp only: prefix_prefix)
  qed
  then show ?case using Cons by auto
qed

lemma occurrences_once:
  assumes "m \<noteq> []" and "occurrences m (x @ m @ y) = 1"
  shows "\<not> sublist m (x @ butlast m)" and "\<not> sublist m y"
proof -
  have "occurrences m (x @ butlast m) + 1 + occurrences m y \<le> 1"
    using occurrences_decompose[OF assms(1), of x y] assms(2) by simp
  then have "occurrences m (x @ butlast m) = 0" and "occurrences m y = 0"
    by simp_all
  then show "\<not> sublist m (x @ butlast m)" and "\<not> sublist m y"
    using assms(1) by (simp_all add: occurrences_zero_iff)
qed

lemma split_from_once:
  assumes "m \<noteq> []" and "occurrences m (x @ m @ y) = 1"
  shows "split_from m [] (x @ m @ y) = [x, y]"
  using split_from_first[OF assms(1) occurrences_once(1)[OF assms], of "[]" y]
    split_from_no_occurrence[OF occurrences_once(2)[OF assms], of "[]"]
  by simp

lemma split_between_once:
  assumes "m \<noteq> []" and "n \<noteq> []"
    and "occurrences m (x @ m @ v @ n @ w) = 1"
    and "occurrences n ((x @ m @ v) @ n @ w) = 1"
  shows "split_between (x @ m @ v @ n @ w) m n = Inr (py_strip v)"
proof -
  have a: "split_from m [] (x @ m @ v @ n @ w) = [x, v @ n @ w]"
    using split_from_once[OF assms(1), of x "v @ n @ w"] assms(3) by simp
  have "\<not> sublist n ((x @ m @ v) @ butlast n)"
    by (rule occurrences_once(1)[OF assms(2) assms(4)])
  then have "\<not> sublist n (v @ butlast n)"
    by (auto simp: sublist_def) (metis append.assoc)
  then have b: "split_from n [] (v @ n @ w) = v # split_from n [] w"
    using split_from_first[OF assms(2), of v "[]" w] by simp
  show ?thesis
    using assms(1,2) by (simp add: split_between_def py_split_def py_index_def bind_exc_def a b)
qed

lemma split_after_once:
  assumes "m \<noteq> []" and "occurrences m (x @ m @ v) = 1"
  shows "split_after (x @ m @ v) m = Inr (py_strip v)"
  using assms(1) split_from_once[OF assms]
  by (simp add: split_after_def py_split_def py_index_def bind_exc_def)

lemma split_between_total:
  assumes "m \<noteq> []" and "n \<noteq> []" and "py_in m text"
  shows "\<exists>v. split_between text m n = Inr v"
proof -
  have "2 \<le> length (split_from m [] text)"
    using assms by (simp add: split_from_length py_in_sublist)
  moreover have "0 < length (split_from n [] t)" for t
    using split_from_not_Nil[of n "[]" t] by simp
  ultimately show ?thesis
    using assms(1,2) by (simp add: split_between_def py_split_def py_index_def bind_exc_def)
qed

lemma split_after_total:
  assumes "m \<noteq> []" and "py_in m text"
  shows "\<exists>v. split_after text m = Inr v"
proof -
  have "2 \<le> length (split_from m [] text)"
    using assms by (simp add: split_from_length py_in_sublist)
  then show ?thesis
    using assms(1) by (simp add: split_after_def py_split_def py_index_def bind_exc_def)
qed

lemma markers_not_Nil:
  "THINKING \<noteq> []" "STATUS \<noteq> []" "RATIONALE \<noteq> []" "EVIDENCE_CITATION \<noteq> []"
  by (simp_all add: THINKING_def STATUS_def RATIONALE_def EVIDENCE_CITATION_def)

lemma step_between:
  assumes "m \<noteq> []" and "n \<noteq> []"
  shows "\<exists>v. (if py_in m text then bind_exc (split_between text m n) (\<lambda>v. Inr (upd v)) else Inr s)
            = Inr (if sublist m text then upd v else s)
          \<and> (\<forall>x u w. text = x @ m @ u @ n @ w \<and> occurrences m text = 1 \<and> occurrences n text = 1
                \<longrightarrow> v = py_strip u)"
proof (cases "py_in m text")
  case True
  then obtain v where v: "split_between text m n = Inr v"
    using split_between_total[OF assms] by blast
  have "v = py_strip u"
    if "text = x @ m @ u @ n @ w" "occurrences m text = 1" "occurrences n text = 1" for x u w
    using split_between_once[OF assms, of x u w] that v by simp
  then show ?thesis
    using True v by (auto simp: bind_exc_def py_in_sublist)
next
  case False
  then have "\<not> sublist m text" by (simp add: py_in_sublist)
  then have "text \<noteq> x @ m @ u @ n @ w" for x u w
    by auto
  then show ?thesis using False by (auto simp: py_in_sublist)
qed

lemma step_after:
  assumes "m \<noteq> []"
  shows "\<exists>v. (if py_in m text then bind_exc (split_after text m) (\<lambda>v. Inr (upd v)) else Inr s)
            = Inr (if sublist m text then upd v else s)
          \<and> (\<forall>x u. text = x @ m @ u \<and> occurrences m text = 1 \<longrightarrow> v = py_strip u)"
proof (cases "py_in m text")
  case True
  then obtain v where v: "split_after text m = Inr v"
    using split_after_total[OF assms] by blast
  have "v = py_strip u" if "text = x @ m @ u" "occurrences m text = 1" for x u
    using split_after_once[OF assms, of x u] that v by simp
  then show ?thesis
    using True v by (auto simp: bind_exc_def py_in_sublist)
next
  case False
  then have "\<not> sublist m text" by (simp add: py_in_sublist)
  then have "text \<noteq> x @ m @ u" for x u
    by auto
  then show ?thesis using False by (auto simp: py_in_sublist)
qed



section \<open>Properties of the audit engine\<close>

lemma step_between_dom:
  assumes "m \<noteq> []" and "n \<noteq> []"
  shows "\<exists>s'. (if py_in m t then bind_exc (split_between t m n) (\<lambda>v. Inr (s(k \<mapsto> v))) else Inr s)
            = Inr s' \<and> dom s \<subseteq> dom s'"
proof (cases "py_in m t")
  case True
  then obtain v where v: "split_between t m n = Inr v"
    using split_between_total[OF assms] by blast
  have "dom s \<subseteq> dom (s(k \<mapsto> v))" by auto
  then show ?thesis using True v by (simp add: bind_exc_def)
next
  case False
  then show ?thesis by simp
qed

lemma step_after_dom:
  assumes "m \<noteq> []"
  shows "\<exists>s'. (if py_in m t then bind_exc (split_after t m) (\<lambda>v. Inr (s(k \<mapsto> v))) else Inr s)
            = Inr s' \<and> dom s \<subseteq> dom s'"
proof (cases "py_in m t")
  case True
  then obtain v where v: "split_after t m = Inr v"
    using split_after_total[OF assms] by blast
  have "dom s \<subseteq> dom (s(k \<mapsto> v))" by auto
  then show ?thesis using True v by (simp add: bind_exc_def)
next
  case False
  then show ?thesis by simp
qed

lemma parse_structured_response_dom:
  "\<exists>s. parse_structured_response text = Inr s \<and> dom default_sections \<subseteq> dom s"
proof -
  obtain s1 where s1: "set_thinking text default_sections = Inr s1" "dom default_sections \<subseteq> dom s1"
    using step_between_dom[OF markers_not_Nil(1) markers_not_Nil(2),
        where t = "text" and s = default_sections and k = "''thinking''"]
    unfolding set_thinking_def by (elim exE conjE)
  obtain s2 where s2: "set_status text s1 = Inr s2" "dom s1 \<subseteq> dom s2"
    using step_between_dom[OF markers_not_Nil(2) markers_not_Nil(3),
        where t = "text" and s = s1 and k = "''status''"]
    unfolding set_status_def by (elim exE conjE)
  obtain s3 where s3: "set_rationale text s2 = Inr s3" "dom s2 \<subseteq> dom s3"
    using step_between_dom[OF markers_not_Nil(3) markers_not_Nil(4),
        where t = "text" and s = s2 and k = "''rationale''"]
    unfolding set_rationale_def by (elim exE conjE)
  obtain s4 where s4: "set_citation text s3 = Inr s4" "dom s3 \<subseteq> dom s4"
    using step_after_dom[OF markers_not_Nil(4),
        where t = "text" and s = s3 and k = "''citation''"]
    unfolding set_citation_def by (elim exE conjE)
  have "parse_structured_response text = Inr s4"
    by (simp add: parse_structured_response_def s1 s2 s3 s4)
  moreover have "dom default_sections \<subseteq> dom s4"
    using s1(2) s2(2) s3(2) s4(2) by (rule order_trans[OF order_trans[OF order_trans]])
  ultimately show ?thesis by (intro exI[where x = s4] conjI)
qed

lemma parse_structured_response_keys:
  "\<exists>s th st ra ci. parse_structured_response text = Inr s \<and> s ''thinking'' = Some th
     \<and> s ''status'' = Some st \<and> s ''rationale'' = Some ra \<and> s ''citation'' = Some ci"
proof -
  obtain s where s: "parse_structured_response text = Inr s" "dom default_sections \<subseteq> dom s"
    using parse_structured_response_dom by blast
  have "''thinking'' \<in> dom default_sections" "''status'' \<in> dom default_sections"
    "''rationale'' \<in> dom default_sections" "''citation'' \<in> dom default_sections"
    by (simp_all add: default_sections_def)
  then have "''thinking'' \<in> dom s" "''status'' \<in> dom s" "''rationale'' \<in> dom s" "''citation'' \<in> dom s"
    using s(2) by blast+
  then show ?thesis using s(1) by blast
qed

lemma new_AuditResult_error:
  "new_AuditResult q th st an [] = Inr \<lparr>question = q, thinking = th, answer = an, status = st, sources = []\<rparr>"
  by (simp add: new_AuditResult_def)

lemma run_audit_error:
  "run_audit_try str_of q retriever chain = Inl e \<Longrightarrow>
   run_audit str_of q retriever chain =
     Inr \<lparr>question = q, thinking = ''Error during reasoning.'',
          answer = ''Error running audit: '' @ msg e, status = ''Error'', sources = []\<rparr>"
  by (simp add: run_audit_def new_AuditResult_error)

lemma run_audit_ok:
  "run_audit_try str_of q retriever chain = Inr r \<Longrightarrow> run_audit str_of q retriever chain = Inr r"
  by (simp add: run_audit_def)

lemma run_audit_try_retriever_fails:
  "retriever q = Inl e \<Longrightarrow> run_audit_try str_of q retriever chain = Inl e"
  by (simp add: run_audit_try_def bind_exc_def)

lemma run_audit_try_chain_fails:
  "retriever q = Inr docs \<Longrightarrow> chain (format_docs str_of docs) q = Inl e \<Longrightarrow>
   run_audit_try str_of q retriever chain = Inl e"
  by (simp add: run_audit_try_def bind_exc_def)

text \<open>What the block computes once the retriever and the chain have returned.\<close>

lemma run_audit_try_after_chain:
  assumes "retriever q = Inr docs" and "chain (format_docs str_of docs) q = Inr response"
  shows "\<exists>parsed th st ra ci. parse_structured_response response = Inr parsed
      \<and> parsed ''thinking'' = Some th \<and> parsed ''status'' = Some st
      \<and> parsed ''rationale'' = Some ra \<and> parsed ''citation'' = Some ci
      \<and> run_audit_try str_of q retriever chain =
          bind_exc (py_list_set (map (\<lambda>d. dict_get (metadata d) ''source_file'' PyNone) docs))
            (new_AuditResult q th st (ra @ newline @ newline @ ci))"
proof -
  obtain parsed th st ra ci where p: "parse_structured_response response = Inr parsed"
    "parsed ''thinking'' = Some th" "parsed ''status'' = Some st"
    "parsed ''rationale'' = Some ra" "parsed ''citation'' = Some ci"
    using parse_structured_response_keys by blast
  have "run_audit_try str_of q retriever chain =
          bind_exc (py_list_set (map (\<lambda>d. dict_get (metadata d) ''source_file'' PyNone) docs))
            (new_AuditResult q th st (ra @ newline @ newline @ ci))"
    using assms p by (simp add: run_audit_try_def bind_exc_def py_getitem_def split: sum.splits)
  with p show ?thesis by blast
qed

lemma py_eq_refl: "hashable x \<Longrightarrow> py_eq x x"
  by (cases x) auto

lemma py_eq_PyStr_left: "py_eq (PyStr a) y \<Longrightarrow> y = PyStr a"
  by (cases y) auto

lemma py_eq_PyNone_right: "py_eq y PyNone \<Longrightarrow> y = PyNone"
  by (cases y) auto

lemma set_dedup_subset: "set (dedup xs) \<subseteq> set xs"
proof (induction xs rule: dedup.induct)
  case 1
  then show ?case by simp
next
  case (2 x xs)
  then show ?case by auto
qed

lemma dedup_represents:
  "list_all hashable xs \<Longrightarrow> z \<in> set xs \<Longrightarrow> \<exists>y \<in> set (dedup xs). py_eq y z"
proof (induction xs rule: dedup.induct)
  case 1
  then show ?case by simp
next
  case (2 x xs)
  show ?case
  proof (cases "py_eq x z")
    case True
    then show ?thesis by auto
  next
    case False
    have "z \<noteq> x" using False 2(2) py_eq_refl by auto
    then have "z \<in> set (filter (\<lambda>y. \<not> py_eq x y) xs)"
      using 2(3) False by auto
    moreover have "list_all hashable (filter (\<lambda>y. \<not> py_eq x y) xs)"
      using 2(2) by (auto simp: list_all_iff)
    ultimately obtain y where "y \<in> set (dedup (filter (\<lambda>y. \<not> py_eq x y) xs))" "py_eq y z"
      using 2(1) by blast
    then show ?thesis by auto
  qed
qed

lemma distinct_dedup: "list_all hashable xs \<Longrightarrow> distinct (dedup xs)"
proof (induction xs rule: dedup.induct)
  case 1
  then show ?case by simp
next
  case (2 x xs)
  have h: "list_all hashable (filter (\<lambda>y. \<not> py_eq x y) xs)"
    using 2(2) by (auto simp: list_all_iff)
  have "x \<notin> set (dedup (filter (\<lambda>y. \<not> py_eq x y) xs))"
  proof
    assume "x \<in> set (dedup (filter (\<lambda>y. \<not> py_eq x y) xs))"
    then have "x \<in> set (filter (\<lambda>y. \<not> py_eq x y) xs)"
      using set_dedup_subset by blast
    then have "\<not> py_eq x x" by simp
    then show False using 2(2) py_eq_refl by auto
  qed
  then show ?case using 2(1)[OF h] by simp
qed

text \<open>When every element that is kept is a string, nothing else was in the list.\<close>

lemma dedup_strings:
  assumes "list_all hashable xs" and "list_all (\<lambda>v. as_str v \<noteq> None) (dedup xs)"
  shows "set (dedup xs) = set xs"
proof
  show "set (dedup xs) \<subseteq> set xs" by (rule set_dedup_subset)
  show "set xs \<subseteq> set (dedup xs)"
  proof
    fix z assume "z \<in> set xs"
    then obtain y where y: "y \<in> set (dedup xs)" "py_eq y z"
      using dedup_represents[OF assms(1)] by blast
    then have "as_str y \<noteq> None" using assms(2) by (auto simp: list_all_iff)
    then obtain a where "y = PyStr a" by (cases y) auto
    then have "z = y" using y(2) py_eq_PyStr_left by auto
    then show "z \<in> set (dedup xs)" using y(1) by simp
  qed
qed

lemma as_str_PyStr: "as_str v \<noteq> None \<Longrightarrow> PyStr (the (as_str v)) = v"
  by (cases v) auto

lemma new_AuditResult_Inr:
  assumes "new_AuditResult q th st an srcs = Inr r"
  shows "question r = q" "thinking r = th" "status r = st" "answer r = an"
    "list_all (\<lambda>v. as_str v \<noteq> None) srcs" "map PyStr (sources r) = srcs"
proof -
  have a: "list_all (\<lambda>v. as_str v \<noteq> None) srcs"
    using assms by (auto simp: new_AuditResult_def split: if_splits)
  then have r: "r = \<lparr>question = q, thinking = th, answer = an, status = st,
                sources = map (\<lambda>v. the (as_str v)) srcs\<rparr>"
    using assms by (simp add: new_AuditResult_def)
  show "question r = q" "thinking r = th" "status r = st" "answer r = an"
    by (simp_all add: r)
  show "list_all (\<lambda>v. as_str v \<noteq> None) srcs" by (rule a)
  have "map PyStr (map (\<lambda>v. the (as_str v)) srcs) = srcs"
    using a by (induction srcs) (auto simp: as_str_PyStr)
  then show "map PyStr (sources r) = srcs" by (simp add: r)
qed

lemma py_list_set_Inr:
  "py_list_set xs = Inr us \<Longrightarrow> list_all hashable xs \<and> us = dedup xs"
  by (auto simp: py_list_set_def split: if_splits)

lemma run_audit_try_InrE:
  assumes "run_audit_try str_of q retriever chain = Inr r"
  obtains docs response parsed th st ra ci where
    "retriever q = Inr docs" "chain (format_docs str_of docs) q = Inr response"
    "parse_structured_response response = Inr parsed"
    "parsed ''thinking'' = Some th" "parsed ''status'' = Some st"
    "parsed ''rationale'' = Some ra" "parsed ''citation'' = Some ci"
    "list_all hashable (map (\<lambda>d. dict_get (metadata d) ''source_file'' PyNone) docs)"
    "new_AuditResult q th st (ra @ newline @ newline @ ci)
       (dedup (map (\<lambda>d. dict_get (metadata d) ''source_file'' PyNone) docs)) = Inr r"
proof -
  obtain docs where docs: "retriever q = Inr docs"
    using assms run_audit_try_retriever_fails[where retriever = retriever and q = q and str_of = str_of and chain = chain]
    by (cases "retriever q") auto
  obtain response where resp: "chain (format_docs str_of docs) q = Inr response"
    using assms docs run_audit_try_chain_fails[where retriever = retriever and q = q and docs = docs and str_of = str_of and chain = chain]
    by (cases "chain (format_docs str_of docs) q") auto
  obtain parsed th st ra ci where p: "parse_structured_response response = Inr parsed"
    "parsed ''thinking'' = Some th" "parsed ''status'' = Some st"
    "parsed ''rationale'' = Some ra" "parsed ''citation'' = Some ci"
    and t: "run_audit_try str_of q retriever chain =
          bind_exc (py_list_set (map (\<lambda>d. dict_get (metadata d) ''source_file'' PyNone) docs))
            (new_AuditResult q th st (ra @ newline @ newline @ ci))"
    using run_audit_try_after_chain[where retriever = retriever and q = q and docs = docs and str_of = str_of and chain = chain and response = response] docs resp by blast
  let ?xs = "map (\<lambda>d. dict_get (metadata d) ''source_file'' PyNone) docs"
  have h: "list_all hashable ?xs"
    using assms t by (auto simp: py_list_set_def bind_exc_def split: if_splits)
  then have "new_AuditResult q th st (ra @ newline @ newline @ ci) (dedup ?xs) = Inr r"
    using assms t by (simp add: py_list_set_def bind_exc_def)
  with that docs resp p h show thesis by blast
qed

lemma run_audit_try_strings:
  assumes "retriever q = Inr docs" and "chain (format_docs str_of docs) q = Inr response"
    and "\<forall>d \<in> set docs. \<exists>s. metadata d ''source_file'' = Some (PyStr s)"
  shows "\<exists>r. run_audit_try str_of q retriever chain = Inr r"
proof -
  let ?xs = "map (\<lambda>d. dict_get (metadata d) ''source_file'' PyNone) docs"
  obtain th st ra ci where t: "run_audit_try str_of q retriever chain =
          bind_exc (py_list_set ?xs) (new_AuditResult q th st (ra @ newline @ newline @ ci))"
    using run_audit_try_after_chain[where retriever = retriever and q = q and docs = docs and str_of = str_of and chain = chain and response = response] assms(1,2) by blast
  have s: "\<forall>v \<in> set ?xs. \<exists>s. v = PyStr s"
    using assms(3) by (auto simp: dict_get_def)
  then have h: "list_all hashable ?xs" by (auto simp: list_all_iff)
  have "\<forall>v \<in> set (dedup ?xs). \<exists>s. v = PyStr s"
    using s set_dedup_subset[of ?xs] by blast
  then have "list_all (\<lambda>v. as_str v \<noteq> None) (dedup ?xs)"
    by (auto simp: list_all_iff)
  then show ?thesis
    using t h by (simp add: py_list_set_def bind_exc_def new_AuditResult_def)
qed

text \<open>
  Claim C1. For every question, retriever and chain, \<open>run_audit\<close> returns an
  \<open>AuditResult\<close> and never raises. Whenever a step of its \<open>try\<close> block raises, and in
  particular when the retriever raises or the LLM chain raises, the result has the
  status \<open>Error\<close>, an answer that ends with the message of the exception, and no
  sources.
\<close>

theorem run_audit_never_raises:
  "\<exists>r. run_audit str_of q retriever chain = Inr r
     \<and> question r = q
     \<and> (\<forall>e. run_audit_try str_of q retriever chain = Inl e
          \<longrightarrow> status r = ''Error'' \<and> answer r = ''Error running audit: '' @ msg e
              \<and> sources r = [])
     \<and> (\<forall>e. retriever q = Inl e
          \<longrightarrow> status r = ''Error'' \<and> answer r = ''Error running audit: '' @ msg e
              \<and> sources r = [])
     \<and> (\<forall>docs e. retriever q = Inr docs \<and> chain (format_docs str_of docs) q = Inl e
          \<longrightarrow> status r = ''Error'' \<and> answer r = ''Error running audit: '' @ msg e
              \<and> sources r = [])"
proof (cases "run_audit_try str_of q retriever chain")
  case (Inl e0)
  let ?r = "\<lparr>question = q, thinking = ''Error during reasoning.'',
          answer = ''Error running audit: '' @ msg e0, status = ''Error'', sources = []\<rparr>"
  have r: "run_audit str_of q retriever chain = Inr ?r"
    by (rule run_audit_error[OF Inl])
  have a: "e = e0" if "retriever q = Inl e" for e
    using run_audit_try_retriever_fails[where retriever = retriever and q = q and str_of = str_of and chain = chain and e = e] that Inl by simp
  have b: "e = e0" if "retriever q = Inr docs \<and> chain (format_docs str_of docs) q = Inl e"
    for docs e
    using run_audit_try_chain_fails[where retriever = retriever and q = q and docs = docs and str_of = str_of and chain = chain and e = e] that Inl by simp
  show ?thesis
    using Inl a b by (intro exI[where x = ?r] conjI r) auto
next
  case (Inr r0)
  have r: "run_audit str_of q retriever chain = Inr r0"
    by (rule run_audit_ok[OF Inr])
  have qn: "question r0 = q"
    using Inr by (elim run_audit_try_InrE) (rule new_AuditResult_Inr(1))
  have a: "False" if "retriever q = Inl e" for e
    using run_audit_try_retriever_fails[where retriever = retriever and q = q and str_of = str_of and chain = chain and e = e] that Inr by simp
  have b: "False" if "retriever q = Inr docs \<and> chain (format_docs str_of docs) q = Inl e"
    for docs e
    using run_audit_try_chain_fails[where retriever = retriever and q = q and docs = docs and str_of = str_of and chain = chain and e = e] that Inr by simp
  show ?thesis
    using Inr a b by (intro exI[where x = r0] conjI r qn) auto
qed

theorem run_audit_never_raises_witness:
  "(\<exists>r. run_audit (\<lambda>v. ''?'') ''q'' (\<lambda>q. Inl (Exc ''ConnectionError'' ''store down''))
            (\<lambda>context q. Inr ''x'') = Inr r
        \<and> status r = ''Error'' \<and> answer r = ''Error running audit: store down''
        \<and> sources r = [])
   \<and> (\<exists>r. run_audit (\<lambda>v. ''?'') ''q'' (\<lambda>q. Inr [])
            (\<lambda>context q. Inl (Exc ''TimeoutError'' ''llm timeout'')) = Inr r
        \<and> status r = ''Error'' \<and> answer r = ''Error running audit: llm timeout''
        \<and> sources r = [])"
proof (rule conjI)
  let ?retriever = "\<lambda>q :: string. (Inl (Exc ''ConnectionError'' ''store down'') :: exc + document list)"
  let ?chain = "\<lambda>(context :: string) (q :: string). (Inr ''x'' :: exc + string)"
  have f: "run_audit_try (\<lambda>v. ''?'') ''q'' ?retriever ?chain = Inl (Exc ''ConnectionError'' ''store down'')"
    by (simp add: run_audit_try_def bind_exc_def)
  from run_audit_never_raises[where str_of = "\<lambda>v. ''?''" and q = "''q''"
      and retriever = ?retriever and chain = ?chain]
  show "\<exists>r. run_audit (\<lambda>v. ''?'') ''q'' ?retriever ?chain = Inr r
        \<and> status r = ''Error'' \<and> answer r = ''Error running audit: store down''
        \<and> sources r = []"
  proof (elim exE conjE, goal_cases)
    case (1 r)
    have "status r = ''Error'' \<and> answer r = ''Error running audit: '' @ msg (Exc ''ConnectionError'' ''store down'')
        \<and> sources r = []"
      using 1(3) f by blast
    moreover have "status r = ''Error'' \<and> answer r = ''Error running audit: '' @ msg (Exc ''ConnectionError'' ''store down'')
        \<and> sources r = []"
      using 1(4) by simp
    ultimately show ?case using 1(1) by (intro exI[where x = r]) simp
  qed
next
  let ?retriever = "\<lambda>q :: string. (Inr [] :: exc + document list)"
  let ?chain = "\<lambda>(context :: string) (q :: string). (Inl (Exc ''TimeoutError'' ''llm timeout'') :: exc + string)"
  from run_audit_never_raises[where str_of = "\<lambda>v. ''?''" and q = "''q''"
      and retriever = ?retriever and chain = ?chain]
  show "\<exists>r. run_audit (\<lambda>v. ''?'') ''q'' ?retriever ?chain = Inr r
        \<and> status r = ''Error'' \<and> answer r = ''Error running audit: llm timeout''
        \<and> sources r = []"
  proof (elim exE conjE, goal_cases)
    case (1 r)
    have "status r = ''Error'' \<and> answer r = ''Error running audit: '' @ msg (Exc ''TimeoutError'' ''llm timeout'')
        \<and> sources r = []"
      using 1(5) by simp
    then show ?case using 1(1) by (intro exI[where x = r]) simp
  qed
qed

text \<open>
  Claim C3. When the \<open>try\<close> block of \<open>run_audit\<close> completes, the result it returns has
  the parsed rationale, two newlines and the parsed citation as its answer, and its
  sources are, without repetition, the \<open>source_file\<close> values of all the chunks the
  retriever returned: the response text has no part in them.
\<close>

theorem run_audit_success_result:
  assumes "run_audit_try str_of q retriever chain = Inr r"
  shows "run_audit str_of q retriever chain = Inr r
     \<and> (\<exists>docs response parsed th st ra ci.
          retriever q = Inr docs \<and> chain (format_docs str_of docs) q = Inr response
        \<and> parse_structured_response response = Inr parsed
        \<and> parsed ''thinking'' = Some th \<and> parsed ''status'' = Some st
        \<and> parsed ''rationale'' = Some ra \<and> parsed ''citation'' = Some ci
        \<and> thinking r = th \<and> status r = st
        \<and> answer r = ra @ newline @ newline @ ci
        \<and> PyStr ` set (sources r) = (\<lambda>d. dict_get (metadata d) ''source_file'' PyNone) ` set docs
        \<and> distinct (sources r))"
proof (rule conjI)
  show "run_audit str_of q retriever chain = Inr r"
    by (rule run_audit_ok[OF assms])
next
  from assms obtain docs response parsed th st ra ci where
    f: "retriever q = Inr docs" "chain (format_docs str_of docs) q = Inr response"
    "parse_structured_response response = Inr parsed"
    "parsed ''thinking'' = Some th" "parsed ''status'' = Some st"
    "parsed ''rationale'' = Some ra" "parsed ''citation'' = Some ci"
    and h: "list_all hashable (map (\<lambda>d. dict_get (metadata d) ''source_file'' PyNone) docs)"
    and n: "new_AuditResult q th st (ra @ newline @ newline @ ci)
       (dedup (map (\<lambda>d. dict_get (metadata d) ''source_file'' PyNone) docs)) = Inr r"
    by (rule run_audit_try_InrE)
  let ?xs = "map (\<lambda>d. dict_get (metadata d) ''source_file'' PyNone) docs"
  note v = new_AuditResult_Inr[OF n]
  have m: "map PyStr (sources r) = dedup ?xs" by (rule v(6))
  have "set (dedup ?xs) = set ?xs"
    by (rule dedup_strings[OF h v(5)])
  then have "set (map PyStr (sources r)) = set ?xs" using m by simp
  then have s: "PyStr ` set (sources r) = (\<lambda>d. dict_get (metadata d) ''source_file'' PyNone) ` set docs"
    by simp
  have "distinct (map PyStr (sources r))"
    using distinct_dedup[OF h] m by simp
  then have d: "distinct (sources r)" by (simp add: distinct_map)
  show "\<exists>docs response parsed th st ra ci.
          retriever q = Inr docs \<and> chain (format_docs str_of docs) q = Inr response
        \<and> parse_structured_response response = Inr parsed
        \<and> parsed ''thinking'' = Some th \<and> parsed ''status'' = Some st
        \<and> parsed ''rationale'' = Some ra \<and> parsed ''citation'' = Some ci
        \<and> thinking r = th \<and> status r = st
        \<and> answer r = ra @ newline @ newline @ ci
        \<and> PyStr ` set (sources r) = (\<lambda>d. dict_get (metadata d) ''source_file'' PyNone) ` set docs
        \<and> distinct (sources r)"
    using f v(2) v(3) v(4) s d by blast
qed

theorem run_audit_success_result_witness:
  "\<exists>r. run_audit (\<lambda>v. ''?'') ''remote days?''
          (\<lambda>q. Inr [\<lparr>page_content = ''Up to 3 days'', metadata = [''source_file'' \<mapsto> PyStr ''a.pdf'']\<rparr>,
                     \<lparr>page_content = ''Badges'', metadata = [''source_file'' \<mapsto> PyStr ''b.pdf'']\<rparr>,
                     \<lparr>page_content = ''Approval'', metadata = [''source_file'' \<mapsto> PyStr ''a.pdf'']\<rparr>])
          (\<lambda>context q. Inr ''**STATUS**: Partial **RATIONALE**: Three. **EVIDENCE CITATION**: [Source: a.pdf]'')
        = Inr r
      \<and> status r = ''Partial'' \<and> thinking r = ''No thinking provided.''
      \<and> answer r = ''Three.'' @ newline @ newline @ ''[Source: a.pdf]''
      \<and> set (sources r) = {''a.pdf'', ''b.pdf''} \<and> distinct (sources r)"
proof -
  let ?retriever = "\<lambda>q :: string. (Inr [\<lparr>page_content = ''Up to 3 days'', metadata = [''source_file'' \<mapsto> PyStr ''a.pdf'']\<rparr>,
                     \<lparr>page_content = ''Badges'', metadata = [''source_file'' \<mapsto> PyStr ''b.pdf'']\<rparr>,
                     \<lparr>page_content = ''Approval'', metadata = [''source_file'' \<mapsto> PyStr ''a.pdf'']\<rparr>]
                  :: exc + document list)"
  let ?chain = "\<lambda>(context :: string) (q :: string).
      (Inr ''**STATUS**: Partial **RATIONALE**: Three. **EVIDENCE CITATION**: [Source: a.pdf]'' :: exc + string)"
  let ?r = "\<lparr>question = ''remote days?'', thinking = ''No thinking provided.'',
          answer = ''Three.'' @ newline @ newline @ ''[Source: a.pdf]'',
          status = ''Partial'', sources = [''a.pdf'', ''b.pdf'']\<rparr>"
  have ev: "run_audit_try (\<lambda>v. ''?'') ''remote days?'' ?retriever ?chain = Inr ?r"
    by (simp add: run_audit_try_def bind_exc_def parse_structured_response_def
      default_sections_def set_thinking_def set_status_def set_rationale_def set_citation_def
      split_between_def split_after_def py_split_def py_index_def py_strip_def is_space_def
      THINKING_def STATUS_def RATIONALE_def EVIDENCE_CITATION_def py_getitem_def
      py_list_set_def dict_get_def new_AuditResult_def newline_def Let_def)
  have "run_audit (\<lambda>v. ''?'') ''remote days?'' ?retriever ?chain = Inr ?r"
    by (rule run_audit_success_result[OF ev, THEN conjunct1])
  then show ?thesis
    by (intro exI[where x = ?r]) auto
qed

text \<open>
  Claim C10. If a chunk the retriever returned has no \<open>source_file\<close> key, the \<open>try\<close>
  block of \<open>run_audit\<close> raises and the call returns the result with status \<open>Error\<close>
  and no sources; when the chain has returned and every collected value is hashable,
  the exception is the \<open>ValidationError\<close> of the \<open>sources\<close> field. \<open>format_docs\<close>
  renders that chunk under the placeholder \<open>Unknown Source\<close>.
\<close>

theorem run_audit_missing_source_file:
  assumes "retriever q = Inr docs" and "d \<in> set docs" and "metadata d ''source_file'' = None"
  shows "(\<exists>r e. run_audit_try str_of q retriever chain = Inl e
            \<and> run_audit str_of q retriever chain = Inr r
            \<and> status r = ''Error'' \<and> sources r = []
            \<and> answer r = ''Error running audit: '' @ msg e)
     \<and> (\<forall>response. chain (format_docs str_of docs) q = Inr response
            \<and> list_all hashable (map (\<lambda>d. dict_get (metadata d) ''source_file'' PyNone) docs)
          \<longrightarrow> (\<exists>m. run_audit_try str_of q retriever chain = Inl (Exc ''ValidationError'' m)))
     \<and> format_doc str_of d
          = ''[Source: Unknown Source]'' @ newline
            @ py_replace newline '' '' (page_content d) @ newline"
proof -
  let ?xs = "map (\<lambda>d. dict_get (metadata d) ''source_file'' PyNone) docs"
  have none: "PyNone \<in> set ?xs"
    using assms(2,3) by (force simp: dict_get_def)
  have val: "\<exists>m. run_audit_try str_of q retriever chain = Inl (Exc ''ValidationError'' m)"
    if c: "chain (format_docs str_of docs) q = Inr response" and h: "list_all hashable ?xs"
    for response
  proof -
    obtain th st ra ci where t: "run_audit_try str_of q retriever chain =
          bind_exc (py_list_set ?xs) (new_AuditResult q th st (ra @ newline @ newline @ ci))"
      using run_audit_try_after_chain[where retriever = retriever and q = q and docs = docs and str_of = str_of and chain = chain and response = response] assms(1) c by blast
    obtain y where "y \<in> set (dedup ?xs)" "py_eq y PyNone"
      using dedup_represents[OF h none] by blast
    then have "PyNone \<in> set (dedup ?xs)" using py_eq_PyNone_right by auto
    moreover have "as_str PyNone = None" by simp
    ultimately have "\<not> list_all (\<lambda>v. as_str v \<noteq> None) (dedup ?xs)"
      unfolding list_all_iff by blast
    then show ?thesis
      using t h by (simp add: py_list_set_def bind_exc_def new_AuditResult_def)
  qed
  have fails: "\<exists>e. run_audit_try str_of q retriever chain = Inl e"
  proof (cases "chain (format_docs str_of docs) q")
    case (Inl e)
    then show ?thesis using assms(1) run_audit_try_chain_fails[where retriever = retriever and q = q and docs = docs and str_of = str_of and chain = chain and e = e] by blast
  next
    case (Inr response)
    show ?thesis
    proof (cases "list_all hashable ?xs")
      case True
      then show ?thesis using val[OF Inr] by blast
    next
      case False
      obtain th st ra ci where t: "run_audit_try str_of q retriever chain =
          bind_exc (py_list_set ?xs) (new_AuditResult q th st (ra @ newline @ newline @ ci))"
        using run_audit_try_after_chain[where retriever = retriever and q = q and docs = docs and str_of = str_of and chain = chain and response = response] assms(1) Inr by blast
      show ?thesis using t False by (simp add: py_list_set_def bind_exc_def)
    qed
  qed
  then obtain e where e: "run_audit_try str_of q retriever chain = Inl e" by blast
  have first: "\<exists>r e. run_audit_try str_of q retriever chain = Inl e
            \<and> run_audit str_of q retriever chain = Inr r
            \<and> status r = ''Error'' \<and> sources r = []
            \<and> answer r = ''Error running audit: '' @ msg e"
    using e run_audit_error[OF e] by auto
  have third: "format_doc str_of d
          = ''[Source: Unknown Source]'' @ newline
            @ py_replace newline '' '' (page_content d) @ newline"
    using assms(3) by (simp add: format_doc_def dict_get_def py_format_def Let_def)
  show ?thesis using first val third by blast
qed

theorem run_audit_missing_source_file_witness:
  "\<exists>r m. run_audit (\<lambda>v. ''?'') ''badges?''
            (\<lambda>q. Inr [\<lparr>page_content = ''Badge rules'', metadata = Map.empty\<rparr>])
            (\<lambda>context q. Inr ''**STATUS**: Compliant'') = Inr r
      \<and> status r = ''Error'' \<and> sources r = []
      \<and> run_audit_try (\<lambda>v. ''?'') ''badges?''
            (\<lambda>q. Inr [\<lparr>page_content = ''Badge rules'', metadata = Map.empty\<rparr>])
            (\<lambda>context q. Inr ''**STATUS**: Compliant'') = Inl (Exc ''ValidationError'' m)
      \<and> format_doc (\<lambda>v. ''?'') \<lparr>page_content = ''Badge rules'', metadata = Map.empty\<rparr>
          = ''[Source: Unknown Source]'' @ newline @ ''Badge rules'' @ newline"
proof -
  let ?d = "\<lparr>page_content = ''Badge rules'', metadata = (Map.empty :: string \<rightharpoonup> pyval)\<rparr>"
  let ?retriever = "\<lambda>q :: string. (Inr [?d] :: exc + document list)"
  let ?chain = "\<lambda>(context :: string) (q :: string). (Inr ''**STATUS**: Compliant'' :: exc + string)"
  have a: "?retriever ''badges?'' = Inr [?d]" "?d \<in> set [?d]" "metadata ?d ''source_file'' = None"
    by simp_all
  note t = run_audit_missing_source_file[where retriever = ?retriever and q = "''badges?''"
      and docs = "[?d]" and d = ?d and str_of = "\<lambda>v. ''?''" and chain = ?chain, OF a]
  from t[THEN conjunct1] obtain r e where
    r: "run_audit_try (\<lambda>v. ''?'') ''badges?'' ?retriever ?chain = Inl e"
      "run_audit (\<lambda>v. ''?'') ''badges?'' ?retriever ?chain = Inr r"
      "status r = ''Error''" "sources r = []"
    by blast
  have "\<exists>m. run_audit_try (\<lambda>v. ''?'') ''badges?'' ?retriever ?chain = Inl (Exc ''ValidationError'' m)"
    using t[THEN conjunct2, THEN conjunct1] by (simp add: dict_get_def)
  then obtain m where m: "run_audit_try (\<lambda>v. ''?'') ''badges?'' ?retriever ?chain = Inl (Exc ''ValidationError'' m)"
    by blast
  have f: "format_doc (\<lambda>v. ''?'') ?d = ''[Source: Unknown Source]'' @ newline @ ''Badge rules'' @ newline"
    using t[THEN conjunct2, THEN conjunct2] by (simp add: py_replace_def newline_def)
  show ?thesis
    using r(2,3,4) m f by blast
qed

section \<open>Properties of the chunker\<close>

declare chunk_text.simps [simp del]

lemma chunk_text_empty: "chunk_text chunk_size overlap [] = []"
  by (subst chunk_text.simps) simp

lemma chunk_text_single:
  "u \<noteq> [] \<Longrightarrow> length u \<le> chunk_size \<or> chunk_size \<le> overlap \<Longrightarrow>
   chunk_text chunk_size overlap u = [u]"
  by (subst chunk_text.simps) simp

lemma chunk_text_window:
  "chunk_size < length u \<Longrightarrow> overlap < chunk_size \<Longrightarrow>
   chunk_text chunk_size overlap u =
     take chunk_size u # chunk_text chunk_size overlap (drop (chunk_size - overlap) u)"
  by (subst chunk_text.simps) auto

lemma drop_overlap_chunks:
  assumes "overlap < chunk_size"
  shows "concat (map (drop overlap) (chunk_text chunk_size overlap u)) = drop overlap u"
  using assms
proof (induction chunk_size overlap u rule: chunk_text.induct)
  case (1 chunk_size overlap u)
  show ?case
  proof (cases "chunk_size < length u")
    case False
    then show ?thesis
      by (cases "u = []") (simp_all add: chunk_text_empty chunk_text_single)
  next
    case True
    have lt: "overlap < chunk_size" by (rule 1(2))
    have ne: "u \<noteq> []" using True by auto
    have ih: "concat (map (drop overlap) (chunk_text chunk_size overlap (drop (chunk_size - overlap) u)))
        = drop overlap (drop (chunk_size - overlap) u)"
      using 1(1) ne True lt by simp
    have "concat (map (drop overlap) (chunk_text chunk_size overlap u))
        = drop overlap (take chunk_size u) @ drop overlap (drop (chunk_size - overlap) u)"
      by (simp add: chunk_text_window[OF True lt] ih)
    also have "\<dots> = drop overlap (take chunk_size u) @ drop chunk_size u"
      using lt by simp
    also have "\<dots> = drop overlap (take chunk_size u @ drop chunk_size u)"
      using lt True by (simp del: append_take_drop_id)
    also have "\<dots> = drop overlap u"
      by simp
    finally show ?thesis .
  qed
qed

lemma rejoin_chunk_text:
  assumes "overlap < chunk_size"
  shows "rejoin overlap (chunk_text chunk_size overlap u) = u"
proof (cases "chunk_size < length u")
  case False
  then show ?thesis
    by (cases "u = []") (simp_all add: chunk_text_empty chunk_text_single rejoin_def)
next
  case True
  have "rejoin overlap (chunk_text chunk_size overlap u)
      = take chunk_size u @ drop overlap (drop (chunk_size - overlap) u)"
    by (simp add: chunk_text_window[OF True assms] rejoin_def drop_overlap_chunks[OF assms])
  also have "\<dots> = take chunk_size u @ drop chunk_size u"
    using assms by simp
  finally show ?thesis by simp
qed

text \<open>
  Claim C9. For every list of pages and every chunk size and overlap with the overlap
  smaller than the chunk size, joining the first chunk with every later chunk stripped
  of its first \<open>overlap\<close> characters gives back the concatenated page text.
\<close>

theorem chunk_rejoin_roundtrip:
  "overlap < chunk_size \<Longrightarrow> rejoin overlap (chunk pages chunk_size overlap) = concat pages"
  by (simp add: chunk_def rejoin_chunk_text)

theorem chunk_rejoin_roundtrip_witness:
  "(2 :: nat) < 5 \<and> chunk [''abcdefg'', ''hijkl''] 5 2 = [''abcde'', ''defgh'', ''ghijk'', ''jkl'']
     \<and> rejoin 2 (chunk [''abcdefg'', ''hijkl''] 5 2) = ''abcdefghijkl''"
proof -
  have lt: "(2 :: nat) < 5" by simp
  have c: "chunk [''abcdefg'', ''hijkl''] 5 2 = [''abcde'', ''defgh'', ''ghijk'', ''jkl'']"
    by (simp add: chunk_def chunk_text_window chunk_text_single)
  have "rejoin 2 (chunk [''abcdefg'', ''hijkl''] 5 2) = concat [''abcdefg'', ''hijkl'']"
    by (rule chunk_rejoin_roundtrip[OF lt])
  then show ?thesis using lt c by simp
qed

section \<open>Properties of the retriever\<close>

text \<open>
  Claim C6. When the vector store holds no documents, \<open>get_retriever\<close> returns the
  vector retriever alone. Otherwise it returns the ensemble of the BM25 retriever over
  all stored documents and the vector retriever, in this order, with the weights 0.3
  and 0.7; both underlying retrievers are limited to \<open>RETRIEVAL_K\<close> results.
\<close>

theorem get_retriever_hybrid:
  "(vectorstore_get = Inr all_docs \<and> documents all_docs = []
      \<longrightarrow> get_retriever cfg vectorstore_get = Inr (VectorStoreRetriever (RETRIEVAL_K cfg)))
   \<and> (vectorstore_get = Inr all_docs \<and> documents all_docs \<noteq> []
      \<longrightarrow> get_retriever cfg vectorstore_get =
            Inr (EnsembleRetriever
                   [BM25Retriever
                      (map (\<lambda>(txt, md). \<lparr>page_content = txt, metadata = md\<rparr>)
                         (zip (documents all_docs) (metadatas all_docs)))
                      (RETRIEVAL_K cfg),
                    VectorStoreRetriever (RETRIEVAL_K cfg)]
                   [3 / 10, 7 / 10]))"
  by (simp add: get_retriever_def bind_exc_def Let_def)

theorem get_retriever_hybrid_witness:
  "get_retriever default_settings (Inr \<lparr>documents = [], metadatas = []\<rparr>)
     = Inr (VectorStoreRetriever 5)
   \<and> get_retriever default_settings
         (Inr \<lparr>documents = [''Up to 3 days''], metadatas = [[''source_file'' \<mapsto> PyStr ''a.pdf'']]\<rparr>)
     = Inr (EnsembleRetriever
              [BM25Retriever
                 [\<lparr>page_content = ''Up to 3 days'', metadata = [''source_file'' \<mapsto> PyStr ''a.pdf'']\<rparr>] 5,
               VectorStoreRetriever 5]
              [3 / 10, 7 / 10])"
proof (rule conjI)
  let ?e = "\<lparr>documents = [], metadatas = []\<rparr>"
  have "get_retriever default_settings (Inr ?e) = Inr (VectorStoreRetriever (RETRIEVAL_K default_settings))"
    using get_retriever_hybrid[where vectorstore_get = "Inr ?e" and all_docs = ?e
        and cfg = default_settings]
    by simp
  then show "get_retriever default_settings (Inr ?e) = Inr (VectorStoreRetriever 5)"
    by (simp add: default_settings_def)
next
  let ?a = "\<lparr>documents = [''Up to 3 days''], metadatas = [[''source_file'' \<mapsto> PyStr ''a.pdf'']]\<rparr>"
  have "get_retriever default_settings (Inr ?a) =
            Inr (EnsembleRetriever
                   [BM25Retriever
                      (map (\<lambda>(txt, md). \<lparr>page_content = txt, metadata = md\<rparr>)
                         (zip (documents ?a) (metadatas ?a)))
                      (RETRIEVAL_K default_settings),
                    VectorStoreRetriever (RETRIEVAL_K default_settings)]
                   [3 / 10, 7 / 10])"
    using get_retriever_hybrid[where vectorstore_get = "Inr ?a" and all_docs = ?a
        and cfg = default_settings]
    by simp
  then show "get_retriever default_settings (Inr ?a)
     = Inr (EnsembleRetriever
              [BM25Retriever
                 [\<lparr>page_content = ''Up to 3 days'', metadata = [''source_file'' \<mapsto> PyStr ''a.pdf'']\<rparr>] 5,
               VectorStoreRetriever 5]
              [3 / 10, 7 / 10])"
    by (simp add: default_settings_def)
qed

section \<open>Properties of the bulk audit stream\<close>










section \<open>Properties of the question extractor\<close>

lemma extract_from_file_error:
  "extract_from_file_try loader chain file_path = Inl e \<Longrightarrow>
   extract_from_file loader chain file_path = Inr (PyList [])"
  by (simp add: extract_from_file_def)

text \<open>
  Claim C8. \<open>extract_from_file\<close> always returns and never raises; whenever a step of
  its \<open>try\<close> block raises (the loader, the chain of LLM call and JSON parser, or the
  reading of a result that is no dictionary) it returns the empty list. Given an
  empty list of questions, the bulk endpoint answers with the client error 400
  \<open>Could not extract any questions.\<close>, whatever the auditor is: no question is
  audited and no stream is started.
\<close>

theorem extract_from_file_empty_on_failure:
  "(\<exists>questions. extract_from_file loader chain file_path = Inr questions)
   \<and> (\<forall>e. extract_from_file_try loader chain file_path = Inl e
        \<longrightarrow> extract_from_file loader chain file_path = Inr (PyList []))
   \<and> (\<forall>e. loader file_path = Inl e
        \<longrightarrow> extract_from_file loader chain file_path = Inr (PyList []))
   \<and> (\<forall>pages e. loader file_path = Inr pages
          \<and> chain (py_join newline (map page_content pages)) = Inl e
        \<longrightarrow> extract_from_file loader chain file_path = Inr (PyList []))
   \<and> (\<forall>pages result. loader file_path = Inr pages
          \<and> chain (py_join newline (map page_content pages)) = Inr result
          \<and> (\<forall>items. result \<noteq> PyDict items)
        \<longrightarrow> extract_from_file loader chain file_path = Inr (PyList []))
   \<and> run_bulk_audit_stream True audit [] = HTTPException 400 ''Could not extract any questions.''"
proof (intro conjI allI impI)
  show "\<exists>questions. extract_from_file loader chain file_path = Inr questions"
    by (cases "extract_from_file_try loader chain file_path") (simp_all add: extract_from_file_def)
next
  fix e assume "extract_from_file_try loader chain file_path = Inl e"
  then show "extract_from_file loader chain file_path = Inr (PyList [])"
    by (rule extract_from_file_error)
next
  fix e assume "loader file_path = Inl e"
  then have "extract_from_file_try loader chain file_path = Inl e"
    by (simp add: extract_from_file_try_def bind_exc_def)
  then show "extract_from_file loader chain file_path = Inr (PyList [])"
    by (rule extract_from_file_error)
next
  fix pages e
  assume "loader file_path = Inr pages \<and> chain (py_join newline (map page_content pages)) = Inl e"
  then have "extract_from_file_try loader chain file_path = Inl e"
    by (simp add: extract_from_file_try_def bind_exc_def)
  then show "extract_from_file loader chain file_path = Inr (PyList [])"
    by (rule extract_from_file_error)
next
  fix pages result
  assume a: "loader file_path = Inr pages
          \<and> chain (py_join newline (map page_content pages)) = Inr result
          \<and> (\<forall>items. result \<noteq> PyDict items)"
  then have "\<exists>e. py_get result ''questions'' (PyList []) = Inl e"
    by (cases result) (simp_all add: py_get_def)
  then obtain e where "py_get result ''questions'' (PyList []) = Inl e" by blast
  then have "extract_from_file_try loader chain file_path = Inl e"
    using a by (simp add: extract_from_file_try_def bind_exc_def)
  then show "extract_from_file loader chain file_path = Inr (PyList [])"
    by (rule extract_from_file_error)
next
  show "run_bulk_audit_stream True audit [] = HTTPException 400 ''Could not extract any questions.''"
    by (simp add: run_bulk_audit_stream_def)
qed

theorem extract_from_file_empty_on_failure_witness:
  "extract_from_file (\<lambda>p. Inl (Exc ''FileNotFoundError'' ''no such file'')) (\<lambda>t. Inr (PyDict [])) ''a.pdf''
     = Inr (PyList [])
   \<and> extract_from_file (\<lambda>p. Inr [\<lparr>page_content = ''Q1'', metadata = Map.empty\<rparr>])
        (\<lambda>t. Inl (Exc ''OutputParserException'' ''Invalid json output'')) ''a.pdf''
     = Inr (PyList [])
   \<and> extract_from_file (\<lambda>p. Inr [\<lparr>page_content = ''Q1'', metadata = Map.empty\<rparr>])
        (\<lambda>t. Inr (PyList [PyStr ''Q1''])) ''a.pdf''
     = Inr (PyList [])
   \<and> run_bulk_audit_stream True (\<lambda>q. Inl (Exc ''RuntimeError'' ''boom'')) []
     = HTTPException 400 ''Could not extract any questions.''"
proof (intro conjI)
  let ?bad = "\<lambda>p :: string. (Inl (Exc ''FileNotFoundError'' ''no such file'') :: exc + document list)"
  let ?ok = "\<lambda>p :: string. (Inr [\<lparr>page_content = ''Q1'', metadata = Map.empty\<rparr>] :: exc + document list)"
  let ?c1 = "\<lambda>t :: string. (Inr (PyDict []) :: exc + pyval)"
  let ?c2 = "\<lambda>t :: string. (Inl (Exc ''OutputParserException'' ''Invalid json output'') :: exc + pyval)"
  let ?c3 = "\<lambda>t :: string. (Inr (PyList [PyStr ''Q1'']) :: exc + pyval)"
  let ?audit = "\<lambda>q :: string. (Inl (Exc ''RuntimeError'' ''boom'') :: exc + AuditResult)"
  note t1 = extract_from_file_empty_on_failure[where loader = ?bad and chain = ?c1
      and file_path = "''a.pdf''" and audit = ?audit]
  have f1: "extract_from_file_try ?bad ?c1 ''a.pdf'' = Inl (Exc ''FileNotFoundError'' ''no such file'')"
    by (simp add: extract_from_file_try_def bind_exc_def)
  have "extract_from_file ?bad ?c1 ''a.pdf'' = Inr (PyList [])"
    using t1[THEN conjunct2, THEN conjunct1] f1 by blast
  moreover have "extract_from_file ?bad ?c1 ''a.pdf'' = Inr (PyList [])"
    using t1[THEN conjunct2, THEN conjunct2, THEN conjunct1] by simp
  ultimately show "extract_from_file ?bad ?c1 ''a.pdf'' = Inr (PyList [])" by simp
  note t2 = extract_from_file_empty_on_failure[where loader = ?ok and chain = ?c2
      and file_path = "''a.pdf''" and audit = ?audit]
  show "extract_from_file ?ok ?c2 ''a.pdf'' = Inr (PyList [])"
    using t2[THEN conjunct2, THEN conjunct2, THEN conjunct2, THEN conjunct1] by simp
  note t3 = extract_from_file_empty_on_failure[where loader = ?ok and chain = ?c3
      and file_path = "''a.pdf''" and audit = ?audit]
  show "extract_from_file ?ok ?c3 ''a.pdf'' = Inr (PyList [])"
    using t3[THEN conjunct2, THEN conjunct2, THEN conjunct2, THEN conjunct2, THEN conjunct1] by simp
  show "run_bulk_audit_stream True ?audit [] = HTTPException 400 ''Could not extract any questions.''"
    using t1[THEN conjunct2, THEN conjunct2, THEN conjunct2, THEN conjunct2, THEN conjunct2] .
qed

section \<open>Properties of ingestion\<close>

lemma get_actual_metadata_error:
  "get_actual_metadata_try env t = Inl e \<Longrightarrow> get_actual_metadata env t = Inr fallback_metadata"
  by (simp add: get_actual_metadata_def)

lemma tagger_input_idem: "tagger_input (tagger_input t) = tagger_input t"
  by (simp add: tagger_input_def)

text \<open>
  Claim C4. The text put into the tagger's prompt is a prefix of the first page of at
  most 3000 characters, and the result depends on nothing else of the page. The tagger
  always returns and never raises: whenever a step of its \<open>try\<close> block raises (the
  formatting of the prompt, the LLM call, or \<open>json.loads\<close> on malformed JSON) it
  returns the pair of \<open>formal_title\<close> \<open>Unknown Policy\<close> and \<open>category\<close> \<open>General\<close>.
\<close>

theorem get_actual_metadata_fallback:
  "length (tagger_input first_page_text) \<le> 3000
   \<and> prefix (tagger_input first_page_text) first_page_text
   \<and> get_actual_metadata env (tagger_input first_page_text) = get_actual_metadata env first_page_text
   \<and> (\<exists>doc_info. get_actual_metadata env first_page_text = Inr doc_info)
   \<and> (\<forall>e. get_actual_metadata_try env first_page_text = Inl e
        \<longrightarrow> get_actual_metadata env first_page_text = Inr fallback_metadata)
   \<and> (\<forall>e. registrar_format env (tagger_input first_page_text) = Inl e
        \<longrightarrow> get_actual_metadata env first_page_text = Inr fallback_metadata)
   \<and> (\<forall>prompt e. registrar_format env (tagger_input first_page_text) = Inr prompt
          \<and> tagger_llm env prompt = Inl e
        \<longrightarrow> get_actual_metadata env first_page_text = Inr fallback_metadata)
   \<and> (\<forall>prompt content e. registrar_format env (tagger_input first_page_text) = Inr prompt
          \<and> tagger_llm env prompt = Inr content \<and> json_loads env (clean_json content) = Inl e
        \<longrightarrow> get_actual_metadata env first_page_text = Inr fallback_metadata)"
proof (intro conjI allI impI)
  show "length (tagger_input first_page_text) \<le> 3000"
    by (simp add: tagger_input_def)
  show "prefix (tagger_input first_page_text) first_page_text"
    by (simp add: tagger_input_def take_is_prefix)
  show "get_actual_metadata env (tagger_input first_page_text) = get_actual_metadata env first_page_text"
    by (simp add: get_actual_metadata_def get_actual_metadata_try_def tagger_input_idem)
  show "\<exists>doc_info. get_actual_metadata env first_page_text = Inr doc_info"
    by (cases "get_actual_metadata_try env first_page_text") (simp_all add: get_actual_metadata_def)
next
  fix e assume "get_actual_metadata_try env first_page_text = Inl e"
  then show "get_actual_metadata env first_page_text = Inr fallback_metadata"
    by (rule get_actual_metadata_error)
next
  fix e assume "registrar_format env (tagger_input first_page_text) = Inl e"
  then have "get_actual_metadata_try env first_page_text = Inl e"
    by (simp add: get_actual_metadata_try_def bind_exc_def)
  then show "get_actual_metadata env first_page_text = Inr fallback_metadata"
    by (rule get_actual_metadata_error)
next
  fix prompt e
  assume "registrar_format env (tagger_input first_page_text) = Inr prompt \<and> tagger_llm env prompt = Inl e"
  then have "get_actual_metadata_try env first_page_text = Inl e"
    by (simp add: get_actual_metadata_try_def bind_exc_def)
  then show "get_actual_metadata env first_page_text = Inr fallback_metadata"
    by (rule get_actual_metadata_error)
next
  fix prompt content e
  assume "registrar_format env (tagger_input first_page_text) = Inr prompt
          \<and> tagger_llm env prompt = Inr content \<and> json_loads env (clean_json content) = Inl e"
  then have "get_actual_metadata_try env first_page_text = Inl e"
    by (simp add: get_actual_metadata_try_def bind_exc_def)
  then show "get_actual_metadata env first_page_text = Inr fallback_metadata"
    by (rule get_actual_metadata_error)
qed

theorem get_actual_metadata_fallback_witness:
  "length (tagger_input (replicate 5000 CHR ''x'')) = 3000
   \<and> get_actual_metadata
        (sample_env\<lparr>json_loads := \<lambda>s. Inl (Exc ''JSONDecodeError'' ''Expecting value'')\<rparr>)
        ''Remote Work Policy''
     = Inr (PyDict [(''formal_title'', PyStr ''Unknown Policy''), (''category'', PyStr ''General'')])
   \<and> get_actual_metadata (sample_env\<lparr>tagger_llm := \<lambda>p. Inl (Exc ''TimeoutError'' ''deadline'')\<rparr>)
        ''Remote Work Policy''
     = Inr (PyDict [(''formal_title'', PyStr ''Unknown Policy''), (''category'', PyStr ''General'')])
   \<and> get_actual_metadata (sample_env\<lparr>registrar_format := \<lambda>t. Inl (Exc ''KeyError'' ''title'')\<rparr>)
        ''Remote Work Policy''
     = Inr (PyDict [(''formal_title'', PyStr ''Unknown Policy''), (''category'', PyStr ''General'')])"
proof (intro conjI)
  have "length (tagger_input (replicate 5000 CHR ''x'')) \<le> 3000"
    using get_actual_metadata_fallback[where first_page_text = "replicate 5000 CHR ''x''"
        and env = sample_env]
    by (rule conjunct1)
  moreover have "3000 \<le> length (tagger_input (replicate 5000 CHR ''x''))"
    by (simp add: tagger_input_def)
  ultimately show "length (tagger_input (replicate 5000 CHR ''x'')) = 3000" by simp
next
  let ?env = "sample_env\<lparr>json_loads := \<lambda>s. Inl (Exc ''JSONDecodeError'' ''Expecting value'')\<rparr>"
  note t = get_actual_metadata_fallback[where first_page_text = "''Remote Work Policy''"
        and env = ?env]
  have "get_actual_metadata_try ?env ''Remote Work Policy'' = Inl (Exc ''JSONDecodeError'' ''Expecting value'')"
    by (simp add: get_actual_metadata_try_def bind_exc_def sample_env_def)
  then have "get_actual_metadata ?env ''Remote Work Policy'' = Inr fallback_metadata"
    using t[THEN conjunct2, THEN conjunct2, THEN conjunct2, THEN conjunct2, THEN conjunct1]
    by blast
  moreover have "get_actual_metadata ?env ''Remote Work Policy'' = Inr fallback_metadata"
    using t[THEN conjunct2, THEN conjunct2, THEN conjunct2, THEN conjunct2, THEN conjunct2,
        THEN conjunct2, THEN conjunct2]
    by (simp add: sample_env_def)
  ultimately show "get_actual_metadata ?env ''Remote Work Policy''
     = Inr (PyDict [(''formal_title'', PyStr ''Unknown Policy''), (''category'', PyStr ''General'')])"
    by (simp add: fallback_metadata_def)
next
  let ?env = "sample_env\<lparr>tagger_llm := \<lambda>p. Inl (Exc ''TimeoutError'' ''deadline'')\<rparr>"
  note t = get_actual_metadata_fallback[where first_page_text = "''Remote Work Policy''"
        and env = ?env]
  have "get_actual_metadata ?env ''Remote Work Policy'' = Inr fallback_metadata"
    using t[THEN conjunct2, THEN conjunct2, THEN conjunct2, THEN conjunct2, THEN conjunct2,
        THEN conjunct2, THEN conjunct1]
    by (simp add: sample_env_def)
  then show "get_actual_metadata ?env ''Remote Work Policy''
     = Inr (PyDict [(''formal_title'', PyStr ''Unknown Policy''), (''category'', PyStr ''General'')])"
    by (simp add: fallback_metadata_def)
next
  let ?env = "sample_env\<lparr>registrar_format := \<lambda>t. Inl (Exc ''KeyError'' ''title'')\<rparr>"
  note t = get_actual_metadata_fallback[where first_page_text = "''Remote Work Policy''"
        and env = ?env]
  have "get_actual_metadata ?env ''Remote Work Policy'' = Inr fallback_metadata"
    using t[THEN conjunct2, THEN conjunct2, THEN conjunct2, THEN conjunct2, THEN conjunct2,
        THEN conjunct1]
    by (simp add: sample_env_def)
  then show "get_actual_metadata ?env ''Remote Work Policy''
     = Inr (PyDict [(''formal_title'', PyStr ''Unknown Policy''), (''category'', PyStr ''General'')])"
    by (simp add: fallback_metadata_def)
qed




lemma py_get_cases: "(\<exists>e. py_get x k dflt = Inl e) \<or> (\<exists>v. py_get x k dflt = Inr v)"
  by (cases "py_get x k dflt") auto










end
